theory Spec2Isabelle
  imports Main
begin

section \<open>The SQL Lab query auto-refresh poller (QueryAutoRefresh.jsx)\<close>

text \<open>
  A shallow embedding of the class \<open>QueryAutoRefresh\<close> of
  \<open>superset/assets/src/SqlLab/components/QueryAutoRefresh.jsx\<close>. The methods of the class
  are functions on a record holding the fields of the instance (\<open>this.props\<close>,
  \<open>this.state.offline\<close>, \<open>this.timer\<close>) together with the part of the JavaScript run time
  the methods talk to: the callbacks scheduled with \<open>setTimeout\<close> and not yet fired, the
  HTTP requests not yet finished, and the trace of the calls that leave the component
  (store actions, HTTP calls, timers created).

  Timestamps and delays are JavaScript numbers holding integral milliseconds; they are
  modelled as \<open>int\<close>. The retry count starts at 0 and is only incremented: a \<open>nat\<close>.
\<close>

subsection \<open>Constants\<close>

definition QUERY_UPDATE_FREQ :: int where
  "QUERY_UPDATE_FREQ = 500"

definition QUERY_UPDATE_FREQ_MAX :: int where
  "QUERY_UPDATE_FREQ_MAX = 5000"

definition QUERY_UPDATE_BUFFER_MS :: int where
  "QUERY_UPDATE_BUFFER_MS = 5000"

definition MAX_QUERY_AGE_TO_POLL :: int where
  "MAX_QUERY_AGE_TO_POLL = 21600000"

definition QUERY_TIMEOUT_LIMIT :: int where
  "QUERY_TIMEOUT_LIMIT = 10000"

subsection \<open>Query records and props\<close>

text \<open>
  The fields of a query object that the component reads: \<open>q.state\<close> (a string),
  \<open>q.startDttm\<close> and \<open>q.sqlEditorId\<close>. \<open>props.queries\<close> is an object keyed by query id,
  kept as an association list; \<open>Object.values\<close> lists its values.
\<close>

record query =
  state :: string
  startDttm :: int
  sqlEditorId :: string

type_synonym queries = "(string \<times> query) list"

record props =
  offline :: bool
  queries :: queries
  queryEditorId :: string
  queriesLastUpdate :: int

definition Object_values :: "(string \<times> 'a) list \<Rightarrow> 'a list" where
  "Object_values obj = map snd obj"

definition Object_keys :: "(string \<times> 'a) list \<Rightarrow> string list" where
  "Object_keys obj = map fst obj"

text \<open>\<open>Array.prototype.indexOf\<close>: the first index holding the value, or -1.\<close>

fun indexOf :: "'a list \<Rightarrow> 'a \<Rightarrow> int" where
  "indexOf [] x = - 1"
| "indexOf (y # ys) x =
     (if y = x then 0
      else (let i = indexOf ys x in if i < 0 then - 1 else i + 1))"

subsection \<open>shouldCheckForQueries\<close>

definition isQueryRunning :: "query \<Rightarrow> bool" where
  "isQueryRunning q =
     (indexOf [''running'', ''started'', ''pending'', ''fetching''] (state q) \<ge> 0)"

text \<open>
  The argument of \<open>editorQueries.some\<close>; \<open>now\<close> is the value of
  \<open>new Date().getTime()\<close> read at the start of \<open>shouldCheckForQueries\<close>.
\<close>

definition activeQuery :: "int \<Rightarrow> query \<Rightarrow> bool" where
  "activeQuery now q =
     (isQueryRunning q \<and> now - startDttm q < MAX_QUERY_AGE_TO_POLL)"

definition editorQueries :: "props \<Rightarrow> query list" where
  "editorQueries p =
     filter (\<lambda>q. sqlEditorId q = queryEditorId p) (Object_values (queries p))"

definition shouldCheckForQueries :: "props \<Rightarrow> int \<Rightarrow> bool" where
  "shouldCheckForQueries p now = list_ex (activeQuery now) (editorQueries p)"

subsection \<open>The component and its run time\<close>

text \<open>
  React calls \<open>componentWillMount\<close> once on a constructed instance,
  \<open>componentDidUpdate\<close> only on a mounted one, and \<open>componentWillUnmount\<close> once on a
  mounted one; \<open>setState\<close> on an instance that is not mounted changes nothing.
\<close>

datatype lifecycle = Constructed | Mounted | Unmounted

text \<open>A callback scheduled with \<open>setTimeout\<close>: the handle returned, the \<open>retry_count\<close> bound
  to \<open>stopwatch\<close>, and the delay passed.\<close>

record timeout =
  handle :: nat
  arg :: nat
  delay :: int

text \<open>
  An HTTP request issued by \<open>stopwatch\<close>: the \<open>retry_count\<close> captured by the callbacks of
  its promise chain, and whether the \<open>then\<close>/\<open>catch\<close> callback has already run (the
  \<open>finally\<close> callback runs after it).
\<close>

record request =
  rid :: nat
  rc :: nat
  responded :: bool

datatype effect =
    SetUserOffline bool
  | RefreshQueries queries
  | HttpGet int int
  | SetTimeout nat nat int

record component =
  this_props :: props
  this_state_offline :: bool
  this_timer :: "nat option"
  lifecycle :: lifecycle
  timeouts :: "timeout list"
  requests :: "request list"
  next_handle :: nat
  next_rid :: nat
  effects :: "effect list"

definition constructor :: "props \<Rightarrow> component" where
  "constructor p =
     \<lparr> this_props = p, this_state_offline = offline p, this_timer = None,
       lifecycle = Constructed, timeouts = [], requests = [],
       next_handle = 1, next_rid = 1, effects = [] \<rparr>"

definition emit :: "effect \<Rightarrow> component \<Rightarrow> component" where
  "emit e s = s\<lparr>effects := effects s @ [e]\<rparr>"

subsection \<open>startTimer and stopTimer\<close>

text \<open>
  \<open>startTimer\<close> computes \<open>delay\<close> from the retry count and logs it, and passes
  \<open>QUERY_UPDATE_FREQ\<close> to \<open>setTimeout\<close>. A handle returned by \<open>setTimeout\<close> is a
  positive integer, so \<open>!this.timer\<close> holds exactly when the field is null.
\<close>

definition computed_delay :: "nat \<Rightarrow> int" where
  "computed_delay retry_count =
     min (QUERY_UPDATE_FREQ + int retry_count * 50) QUERY_UPDATE_FREQ_MAX"

definition startTimer :: "nat \<Rightarrow> component \<Rightarrow> component" where
  "startTimer retry_count s =
     (if this_timer s = None then
        (let delay_logged = computed_delay retry_count;
             h = next_handle s
         in emit (SetTimeout h retry_count QUERY_UPDATE_FREQ)
              (s\<lparr> this_timer := Some h,
                  timeouts := timeouts s @
                    [\<lparr> handle = h, arg = retry_count, delay = QUERY_UPDATE_FREQ \<rparr>],
                  next_handle := h + 1 \<rparr>))
      else s)"

definition clearTimeout :: "nat \<Rightarrow> component \<Rightarrow> component" where
  "clearTimeout h s = s\<lparr>timeouts := filter (\<lambda>t. handle t \<noteq> h) (timeouts s)\<rparr>"

definition stopTimer :: "component \<Rightarrow> component" where
  "stopTimer s =
     (case this_timer s of
        Some h \<Rightarrow> clearTimeout h s
      | None \<Rightarrow> s) \<lparr>this_timer := None\<rparr>"

subsection \<open>Lifecycle methods\<close>

definition componentWillMount :: "int \<Rightarrow> component \<Rightarrow> component" where
  "componentWillMount now s =
     (if shouldCheckForQueries (this_props s) now then startTimer 0 s else s)"

definition componentDidUpdate :: "props \<Rightarrow> int \<Rightarrow> component \<Rightarrow> component" where
  "componentDidUpdate prevProps now s =
     (let s1 = (if offline prevProps \<noteq> this_state_offline s
                then emit (SetUserOffline (this_state_offline s)) s else s)
      in if shouldCheckForQueries (this_props s1) now then startTimer 0 s1 else s1)"

definition componentWillUnmount :: "component \<Rightarrow> component" where
  "componentWillUnmount s = stopTimer s"

text \<open>
  \<open>this.setState({ offline: b })\<close> outside a React event handler is applied at once. The
  class is a \<open>PureComponent\<close>: when neither state nor props changed there is no render and
  no \<open>componentDidUpdate\<close>; otherwise \<open>componentDidUpdate\<close> runs with the props unchanged.
\<close>

definition setState_offline :: "bool \<Rightarrow> int \<Rightarrow> component \<Rightarrow> component" where
  "setState_offline b now s =
     (if lifecycle s \<noteq> Mounted then s
      else if this_state_offline s = b then s
      else componentDidUpdate (this_props s) now (s\<lparr>this_state_offline := b\<rparr>))"

subsection \<open>stopwatch and the callbacks of its promise chain\<close>

definition stopwatch :: "nat \<Rightarrow> int \<Rightarrow> component \<Rightarrow> component" where
  "stopwatch retry_count now s =
     (if shouldCheckForQueries (this_props s) now then
        emit (HttpGet (queriesLastUpdate (this_props s) - QUERY_UPDATE_BUFFER_MS)
                QUERY_TIMEOUT_LIMIT)
          (s\<lparr> requests := requests s @
                 [\<lparr> rid = next_rid s, rc = retry_count, responded = False \<rparr>],
              next_rid := next_rid s + 1 \<rparr>)
      else setState_offline False now (stopTimer s))"

definition then_cb :: "queries \<Rightarrow> int \<Rightarrow> component \<Rightarrow> component" where
  "then_cb json now s =
     setState_offline False now
       (if length (Object_keys json) > 0 then emit (RefreshQueries json) s else s)"

definition catch_cb :: "int \<Rightarrow> component \<Rightarrow> component" where
  "catch_cb now s = setState_offline True now s"

text \<open>
  The store actions are taken not to throw, so the \<open>catch\<close> callback runs exactly when
  the promise of the request is rejected. \<open>++retry_count\<close> yields the incremented count
  of the request's closure.
\<close>

definition finally_cb :: "nat \<Rightarrow> component \<Rightarrow> component" where
  "finally_cb retry_count s = startTimer (retry_count + 1) (stopTimer s)"

subsection \<open>Events\<close>

text \<open>
  What the environment does to an instance: React mounts it, delivers new props (a change
  of the store), unmounts it; a scheduled callback fires; the promise of a request is
  resolved with a payload, rejected by a network error or rejected by the time limit,
  and later its \<open>finally\<close> callback runs. Events that read the clock carry its value;
  every read of the clock within the handling of one event gives that value.
  An event that is not enabled in a state leaves the state as it is.

  Store actions are recorded in the trace; the store answers them by delivering new
  props, which is an \<open>Update\<close> event of its own (also between the \<open>then\<close>/\<open>catch\<close>
  callback of a request and its \<open>finally\<close> callback).
\<close>

datatype response = Resolved queries | Rejected | TimedOut

datatype event =
    Mount int
  | Update props int
  | Unmount
  | Fire nat int
  | Respond nat response int
  | Finally nat

fun settle :: "response \<Rightarrow> int \<Rightarrow> component \<Rightarrow> component" where
  "settle (Resolved json) now s = then_cb json now s"
| "settle Rejected now s = catch_cb now s"
| "settle TimedOut now s = catch_cb now s"

fun step :: "event \<Rightarrow> component \<Rightarrow> component" where
  "step (Mount now) s =
     (if lifecycle s = Constructed
      then componentWillMount now (s\<lparr>lifecycle := Mounted\<rparr>) else s)"
| "step (Update p now) s =
     (if lifecycle s = Mounted
      then componentDidUpdate (this_props s) now (s\<lparr>this_props := p\<rparr>) else s)"
| "step Unmount s =
     (if lifecycle s = Mounted
      then (componentWillUnmount s)\<lparr>lifecycle := Unmounted\<rparr> else s)"
| "step (Fire h now) s =
     (case find (\<lambda>t. handle t = h) (timeouts s) of
        None \<Rightarrow> s
      | Some t \<Rightarrow>
          stopwatch (arg t) now
            (s\<lparr>timeouts := filter (\<lambda>t. handle t \<noteq> h) (timeouts s)\<rparr>))"
| "step (Respond i r now) s =
     (case find (\<lambda>q. rid q = i \<and> \<not> responded q) (requests s) of
        None \<Rightarrow> s
      | Some q \<Rightarrow>
          settle r now
            (s\<lparr>requests :=
                 map (\<lambda>q. if rid q = i then q\<lparr>responded := True\<rparr> else q) (requests s)\<rparr>))"
| "step (Finally i) s =
     (case find (\<lambda>q. rid q = i \<and> responded q) (requests s) of
        None \<Rightarrow> s
      | Some q \<Rightarrow>
          finally_cb (rc q)
            (s\<lparr>requests := filter (\<lambda>q. rid q \<noteq> i) (requests s)\<rparr>))"

fun run :: "event list \<Rightarrow> component \<Rightarrow> component" where
  "run [] s = s"
| "run (e # es) s = run es (step e s)"

subsection \<open>Observations on runs\<close>

fun is_Update :: "event \<Rightarrow> bool" where
  "is_Update (Update p now) = True"
| "is_Update _ = False"

fun is_SetTimeout :: "effect \<Rightarrow> bool" where
  "is_SetTimeout (SetTimeout h n d) = True"
| "is_SetTimeout _ = False"

fun is_HttpGet :: "effect \<Rightarrow> bool" where
  "is_HttpGet (HttpGet since limit) = True"
| "is_HttpGet _ = False"

fun is_SetUserOffline :: "effect \<Rightarrow> bool" where
  "is_SetUserOffline (SetUserOffline b) = True"
| "is_SetUserOffline _ = False"

text \<open>The delays passed to \<open>setTimeout\<close>, in the order of the calls.\<close>

fun scheduled_delays :: "effect list \<Rightarrow> int list" where
  "scheduled_delays [] = []"
| "scheduled_delays (SetTimeout h n d # es) = d # scheduled_delays es"
| "scheduled_delays (e # es) = scheduled_delays es"

text \<open>
  A run in which the predicate never holds: at every mount and at every delivery of
  props, \<open>shouldCheckForQueries\<close> is false on the props then in force and at the clock
  value of the event.
\<close>

fun evaluates_active :: "event \<Rightarrow> component \<Rightarrow> bool" where
  "evaluates_active (Mount now) s = shouldCheckForQueries (this_props s) now"
| "evaluates_active (Update p now) s = shouldCheckForQueries p now"
| "evaluates_active e s = False"

fun never_active :: "event list \<Rightarrow> component \<Rightarrow> bool" where
  "never_active [] s = True"
| "never_active (e # es) s = (\<not> evaluates_active e s \<and> never_active es (step e s))"

text \<open>
  The invariant of the polling cycle. A cycle is outstanding from \<open>startTimer\<close> until
  the \<open>finally\<close> callback (or until \<open>stopwatch\<close> finds no active query); all that time
  \<open>this.timer\<close> of a mounted instance holds the handle, also after the callback has
  fired.
\<close>

definition cycle_inv :: "component \<Rightarrow> bool" where
  "cycle_inv s \<longleftrightarrow>
     (lifecycle s = Constructed \<longrightarrow> this_timer s = None \<and> requests s = [])
     \<and> (\<forall>t \<in> set (timeouts s). this_timer s = Some (handle t))
     \<and> length (timeouts s) \<le> 1
     \<and> length (requests s) \<le> 1
     \<and> (requests s \<noteq> [] \<longrightarrow>
          timeouts s = [] \<and> (lifecycle s = Mounted \<longrightarrow> this_timer s \<noteq> None))"

definition idle :: "component \<Rightarrow> bool" where
  "idle s \<longleftrightarrow> this_timer s = None \<and> timeouts s = [] \<and> requests s = []
     \<and> filter is_SetTimeout (effects s) = [] \<and> filter is_HttpGet (effects s) = []"

subsection \<open>Concrete inputs\<close>

text \<open>One query of editor \<open>e1\<close>, running in \<open>props_A\<close> and finished in \<open>props_D\<close>.\<close>

definition q_running :: query where
  "q_running = \<lparr>state = ''running'', startDttm = 0, sqlEditorId = ''e1''\<rparr>"

definition q_success :: query where
  "q_success = \<lparr>state = ''success'', startDttm = 0, sqlEditorId = ''e1''\<rparr>"

definition props_A :: props where
  "props_A = \<lparr>offline = False, queries = [(''q1'', q_running)],
              queryEditorId = ''e1'', queriesLastUpdate = 20000\<rparr>"

definition props_D :: props where
  "props_D = \<lparr>offline = False, queries = [(''q1'', q_success)],
              queryEditorId = ''e1'', queriesLastUpdate = 20000\<rparr>"

lemmas model_defs =
  constructor_def emit_def startTimer_def stopTimer_def clearTimeout_def
  componentWillMount_def componentDidUpdate_def componentWillUnmount_def
  setState_offline_def stopwatch_def then_cb_def catch_cb_def finally_cb_def
  shouldCheckForQueries_def editorQueries_def Object_values_def Object_keys_def
  activeQuery_def isQueryRunning_def computed_delay_def
  QUERY_UPDATE_FREQ_def QUERY_UPDATE_FREQ_MAX_def QUERY_UPDATE_BUFFER_MS_def
  MAX_QUERY_AGE_TO_POLL_def QUERY_TIMEOUT_LIMIT_def
  q_running_def q_success_def props_A_def props_D_def

section \<open>The active-query predicate\<close>

lemma indexOf_nonneg_iff: "indexOf xs x \<ge> 0 \<longleftrightarrow> x \<in> set xs"
  by (induction xs) (auto simp: Let_def)

lemma isQueryRunning_iff:
  "isQueryRunning q \<longleftrightarrow>
     state q \<in> {''running'', ''started'', ''pending'', ''fetching''}"
  unfolding isQueryRunning_def indexOf_nonneg_iff by auto

lemma shouldCheckForQueries_iff:
  "shouldCheckForQueries p now \<longleftrightarrow>
     (\<exists>kq \<in> set (queries p).
        sqlEditorId (snd kq) = queryEditorId p \<and> activeQuery now (snd kq))"
  by (auto simp: shouldCheckForQueries_def editorQueries_def Object_values_def list_ex_iff)

text \<open>
  C5. A query record satisfies the predicate given to \<open>some\<close> if and only if its state is
  one of running, started, pending, fetching and \<open>now - startDttm\<close> is less than
  21600000 ms; hence a running query started 6 hours ago or earlier is not active.
\<close>

theorem activeQuery_characterisation:
  "(activeQuery now q \<longleftrightarrow>
      state q \<in> {''running'', ''started'', ''pending'', ''fetching''}
      \<and> now - startDttm q < 21600000)
   \<and> (state q = ''running'' \<and> now - startDttm q \<ge> 21600000 \<longrightarrow> \<not> activeQuery now q)"
  unfolding activeQuery_def isQueryRunning_iff MAX_QUERY_AGE_TO_POLL_def by auto

theorem activeQuery_characterisation_witness:
  "activeQuery 21599999 \<lparr>state = ''running'', startDttm = 0, sqlEditorId = ''e1''\<rparr>
   \<and> \<not> activeQuery 21600000 \<lparr>state = ''running'', startDttm = 0, sqlEditorId = ''e1''\<rparr>
   \<and> \<not> activeQuery 10 \<lparr>state = ''success'', startDttm = 0, sqlEditorId = ''e1''\<rparr>"
  using activeQuery_characterisation
          [of 21599999 "\<lparr>state = ''running'', startDttm = 0, sqlEditorId = ''e1''\<rparr>"]
        activeQuery_characterisation
          [of 21600000 "\<lparr>state = ''running'', startDttm = 0, sqlEditorId = ''e1''\<rparr>"]
        activeQuery_characterisation
          [of 10 "\<lparr>state = ''success'', startDttm = 0, sqlEditorId = ''e1''\<rparr>"]
  by simp

text \<open>
  C6. A query record whose \<open>sqlEditorId\<close> differs from the \<open>queryEditorId\<close> of the
  component has no influence on \<open>shouldCheckForQueries\<close>: wherever it stands in the
  collection, the decision is the one taken without it; and a collection holding only
  records of other editors never makes the decision true.
\<close>

theorem foreign_query_ignored:
  "(sqlEditorId q \<noteq> queryEditorId p \<longrightarrow>
      shouldCheckForQueries (p\<lparr>queries := qs1 @ (k, q) # qs2\<rparr>) now
        = shouldCheckForQueries (p\<lparr>queries := qs1 @ qs2\<rparr>) now)
   \<and> ((\<forall>kq \<in> set (queries p). sqlEditorId (snd kq) \<noteq> queryEditorId p) \<longrightarrow>
        \<not> shouldCheckForQueries p now)"
  by (auto simp: shouldCheckForQueries_iff)

theorem foreign_query_ignored_witness:
  "\<not> shouldCheckForQueries
       \<lparr>offline = False,
        queries = [(''q1'', \<lparr>state = ''running'', startDttm = 0, sqlEditorId = ''e2''\<rparr>)],
        queryEditorId = ''e1'', queriesLastUpdate = 0\<rparr> 10
   \<and> shouldCheckForQueries
       \<lparr>offline = False,
        queries = [(''q1'', \<lparr>state = ''running'', startDttm = 0, sqlEditorId = ''e2''\<rparr>),
                   (''q2'', \<lparr>state = ''running'', startDttm = 0, sqlEditorId = ''e1''\<rparr>)],
        queryEditorId = ''e1'', queriesLastUpdate = 0\<rparr> 10"
  using foreign_query_ignored
          [of "\<lparr>state = ''running'', startDttm = 0, sqlEditorId = ''e2''\<rparr>"
              "\<lparr>offline = False,
                queries = [(''q1'', \<lparr>state = ''running'', startDttm = 0, sqlEditorId = ''e2''\<rparr>)],
                queryEditorId = ''e1'', queriesLastUpdate = 0\<rparr>"
              "[]" "''q1''"
              "[(''q2'', \<lparr>state = ''running'', startDttm = 0, sqlEditorId = ''e1''\<rparr>)]" 10]
  by (simp add: shouldCheckForQueries_def editorQueries_def Object_values_def
        activeQuery_def isQueryRunning_def MAX_QUERY_AGE_TO_POLL_def)

section \<open>The polling cycle\<close>

subsection \<open>Fields left alone by the methods\<close>

lemma emit_fields [simp]:
  "this_props (emit e s) = this_props s"
  "this_state_offline (emit e s) = this_state_offline s"
  "this_timer (emit e s) = this_timer s"
  "lifecycle (emit e s) = lifecycle s"
  "timeouts (emit e s) = timeouts s"
  "requests (emit e s) = requests s"
  "effects (emit e s) = effects s @ [e]"
  by (simp_all add: emit_def)

lemma startTimer_fields [simp]:
  "this_props (startTimer n s) = this_props s"
  "this_state_offline (startTimer n s) = this_state_offline s"
  "lifecycle (startTimer n s) = lifecycle s"
  "requests (startTimer n s) = requests s"
  by (simp_all add: startTimer_def Let_def)

lemma startTimer_busy [simp]: "this_timer s \<noteq> None \<Longrightarrow> startTimer n s = s"
  by (auto simp: startTimer_def)

lemma startTimer_free:
  "this_timer s = None \<Longrightarrow>
     this_timer (startTimer n s) = Some (next_handle s)
     \<and> timeouts (startTimer n s) =
         timeouts s @ [\<lparr>handle = next_handle s, arg = n, delay = QUERY_UPDATE_FREQ\<rparr>]
     \<and> effects (startTimer n s) =
         effects s @ [SetTimeout (next_handle s) n QUERY_UPDATE_FREQ]"
  by (simp add: startTimer_def Let_def)

lemma stopTimer_fields [simp]:
  "this_props (stopTimer s) = this_props s"
  "this_state_offline (stopTimer s) = this_state_offline s"
  "this_timer (stopTimer s) = None"
  "lifecycle (stopTimer s) = lifecycle s"
  "requests (stopTimer s) = requests s"
  "effects (stopTimer s) = effects s"
  "next_handle (stopTimer s) = next_handle s"
  by (simp_all add: stopTimer_def clearTimeout_def split: option.splits)

lemma stopTimer_timeouts:
  "timeouts (stopTimer s) =
     filter (\<lambda>t. Some (handle t) \<noteq> this_timer s) (timeouts s)"
  by (auto simp: stopTimer_def clearTimeout_def split: option.splits intro: filter_cong)

lemma cycle_inv_timeouts_stop:
  "cycle_inv s \<Longrightarrow> timeouts (stopTimer s) = []"
  by (auto simp: stopTimer_timeouts cycle_inv_def filter_empty_conv)

lemma startTimer_inv:
  assumes "cycle_inv s" "lifecycle s \<noteq> Constructed"
    and "requests s = [] \<or> this_timer s \<noteq> None"
  shows "cycle_inv (startTimer n s)"
proof (cases "this_timer s")
  case None
  with assms have "timeouts s = []" "requests s = []"
    by (auto simp: cycle_inv_def intro: ccontr)
  with None assms(2) show ?thesis
    using startTimer_free [OF None, of n] by (simp add: cycle_inv_def)
next
  case (Some h)
  with assms(1) show ?thesis by simp
qed

lemma stopTimer_inv:
  assumes "cycle_inv s" "requests s = [] \<or> lifecycle s \<noteq> Mounted"
  shows "cycle_inv (stopTimer s)"
  using assms cycle_inv_timeouts_stop [OF assms(1)]
  by (auto simp: cycle_inv_def)

lemma componentDidUpdate_fields [simp]:
  "lifecycle (componentDidUpdate pp now s) = lifecycle s"
  "requests (componentDidUpdate pp now s) = requests s"
  "this_props (componentDidUpdate pp now s) = this_props s"
  "this_state_offline (componentDidUpdate pp now s) = this_state_offline s"
  by (simp_all add: componentDidUpdate_def Let_def)

lemma emit_inv [simp]: "cycle_inv (emit e s) = cycle_inv s"
  by (simp add: cycle_inv_def)

lemma componentDidUpdate_inv:
  assumes "cycle_inv s" "lifecycle s = Mounted"
  shows "cycle_inv (componentDidUpdate pp now s)"
proof -
  have free: "requests s = [] \<or> this_timer s \<noteq> None"
    using assms by (auto simp: cycle_inv_def)
  show ?thesis
    using assms free by (auto simp: componentDidUpdate_def Let_def intro!: startTimer_inv)
qed

lemma setState_offline_fields [simp]:
  "lifecycle (setState_offline b now s) = lifecycle s"
  "requests (setState_offline b now s) = requests s"
  "this_props (setState_offline b now s) = this_props s"
  by (simp_all add: setState_offline_def)

lemma set_offline_inv [simp]: "cycle_inv (s\<lparr>this_state_offline := b\<rparr>) = cycle_inv s"
  by (simp add: cycle_inv_def)

lemma setState_offline_inv:
  "cycle_inv s \<Longrightarrow> cycle_inv (setState_offline b now s)"
  by (simp add: setState_offline_def componentDidUpdate_inv)

lemma stopwatch_inv:
  assumes "cycle_inv s" "requests s = []" "timeouts s = []" "this_timer s \<noteq> None"
  shows "cycle_inv (stopwatch n now s)"
proof (cases "shouldCheckForQueries (this_props s) now")
  case True
  with assms show ?thesis by (auto simp: stopwatch_def cycle_inv_def)
next
  case False
  with assms show ?thesis
    by (simp add: stopwatch_def setState_offline_inv stopTimer_inv)
qed

lemma settle_inv: "cycle_inv s \<Longrightarrow> cycle_inv (settle r now s)"
  by (cases r) (simp_all add: then_cb_def catch_cb_def setState_offline_inv)

lemma finally_cb_inv:
  assumes "cycle_inv s" "requests s = []" "lifecycle s \<noteq> Constructed"
  shows "cycle_inv (finally_cb n s)"
  unfolding finally_cb_def using assms
  by (intro startTimer_inv stopTimer_inv) simp_all

lemma find_handle_single:
  assumes "cycle_inv s" "find (\<lambda>t. handle t = h) (timeouts s) = Some t"
  shows "timeouts s = [t] \<and> handle t = h \<and> this_timer s = Some h \<and> requests s = []
         \<and> lifecycle s \<noteq> Constructed"
proof -
  from assms(2) have "t \<in> set (timeouts s)" "handle t = h"
    by (auto simp: find_Some_iff)
  moreover with assms(1) have "length (timeouts s) \<le> 1" by (simp add: cycle_inv_def)
  ultimately have "timeouts s = [t]"
    by (cases "timeouts s") auto
  with assms(1) \<open>handle t = h\<close> show ?thesis
    by (auto simp: cycle_inv_def)
qed

lemma step_inv: "cycle_inv s \<Longrightarrow> cycle_inv (step e s)"
proof (cases e)
  case (Mount now)
  assume a: "cycle_inv s"
  show ?thesis
  proof (cases "lifecycle s = Constructed")
    case True
    let ?s = "s\<lparr>lifecycle := Mounted\<rparr>"
    have "cycle_inv ?s" "lifecycle ?s \<noteq> Constructed" "requests ?s = [] \<or> this_timer ?s \<noteq> None"
      using a True by (auto simp: cycle_inv_def)
    then have "cycle_inv (startTimer 0 ?s)" by (rule startTimer_inv)
    with True Mount \<open>cycle_inv ?s\<close> show ?thesis by (simp add: componentWillMount_def)
  next
    case False
    with Mount a show ?thesis by simp
  qed
next
  case (Update p now)
  assume "cycle_inv s"
  then have "cycle_inv (s\<lparr>this_props := p\<rparr>)" by (simp add: cycle_inv_def)
  then show ?thesis using Update \<open>cycle_inv s\<close> by (simp add: componentDidUpdate_inv)
next
  case Unmount
  assume a: "cycle_inv s"
  have "timeouts (componentWillUnmount s) = []"
    using cycle_inv_timeouts_stop [OF a] by (simp add: componentWillUnmount_def)
  then show ?thesis using Unmount a
    by (auto simp: cycle_inv_def componentWillUnmount_def)
next
  case (Fire h now)
  assume a: "cycle_inv s"
  show ?thesis
  proof (cases "find (\<lambda>t. handle t = h) (timeouts s)")
    case None
    with Fire a show ?thesis by simp
  next
    case (Some t)
    note f = find_handle_single [OF a Some]
    let ?s = "s\<lparr>timeouts := filter (\<lambda>t. handle t \<noteq> h) (timeouts s)\<rparr>"
    have "cycle_inv ?s" "requests ?s = []" "timeouts ?s = []" "this_timer ?s \<noteq> None"
      using a f by (auto simp: cycle_inv_def)
    then have "cycle_inv (stopwatch (arg t) now ?s)" by (rule stopwatch_inv)
    with Fire Some show ?thesis by simp
  qed
next
  case (Respond i r now)
  assume a: "cycle_inv s"
  show ?thesis
  proof (cases "find (\<lambda>q. rid q = i \<and> \<not> responded q) (requests s)")
    case None
    with Respond a show ?thesis by simp
  next
    case (Some q)
    have "cycle_inv (s\<lparr>requests :=
            map (\<lambda>q. if rid q = i then q\<lparr>responded := True\<rparr> else q) (requests s)\<rparr>)"
      using a by (auto simp: cycle_inv_def)
    with Respond Some show ?thesis by (simp add: settle_inv)
  qed
next
  case (Finally i)
  assume a: "cycle_inv s"
  show ?thesis
  proof (cases "find (\<lambda>q. rid q = i \<and> responded q) (requests s)")
    case None
    with Finally a show ?thesis by simp
  next
    case (Some q)
    then have q: "q \<in> set (requests s)" "rid q = i" by (auto simp: find_Some_iff)
    with a have rs: "requests s = [q]"
      by (cases "requests s") (auto simp: cycle_inv_def)
    let ?s = "s\<lparr>requests := filter (\<lambda>q. rid q \<noteq> i) (requests s)\<rparr>"
    have "cycle_inv ?s" "requests ?s = []" "lifecycle ?s \<noteq> Constructed"
      using a rs q by (auto simp: cycle_inv_def)
    then have "cycle_inv (finally_cb (rc q) ?s)" by (rule finally_cb_inv)
    with Finally Some show ?thesis by simp
  qed
qed

lemma run_inv: "cycle_inv s \<Longrightarrow> cycle_inv (run es s)"
  by (induction es arbitrary: s) (simp_all add: step_inv)

lemma constructor_inv: "cycle_inv (constructor p)"
  by (simp add: cycle_inv_def constructor_def)

lemma reachable_inv: "cycle_inv (run es (constructor p))"
  by (rule run_inv [OF constructor_inv])

subsection \<open>What the methods do while a cycle is outstanding or no query is active\<close>

lemma componentDidUpdate_busy:
  assumes "this_timer s \<noteq> None"
  shows "this_timer (componentDidUpdate pp now s) = this_timer s"
    and "timeouts (componentDidUpdate pp now s) = timeouts s"
    and "filter is_SetTimeout (effects (componentDidUpdate pp now s))
           = filter is_SetTimeout (effects s)"
    and "filter is_HttpGet (effects (componentDidUpdate pp now s))
           = filter is_HttpGet (effects s)"
  using assms by (simp_all add: componentDidUpdate_def Let_def)

lemma componentDidUpdate_inactive:
  assumes "\<not> shouldCheckForQueries (this_props s) now"
  shows "this_timer (componentDidUpdate pp now s) = this_timer s"
    and "timeouts (componentDidUpdate pp now s) = timeouts s"
    and "filter is_SetTimeout (effects (componentDidUpdate pp now s))
           = filter is_SetTimeout (effects s)"
    and "filter is_HttpGet (effects (componentDidUpdate pp now s))
           = filter is_HttpGet (effects s)"
  using assms by (simp_all add: componentDidUpdate_def Let_def)

lemma busy_timer:
  assumes "cycle_inv s" "timeouts s \<noteq> [] \<or> requests s \<noteq> []" "lifecycle s = Mounted"
  shows "this_timer s \<noteq> None"
proof (cases "timeouts s")
  case Nil
  with assms show ?thesis by (simp add: cycle_inv_def)
next
  case (Cons t ts)
  with assms(1) have "this_timer s = Some (handle t)" by (simp add: cycle_inv_def)
  then show ?thesis by simp
qed

lemma update_while_busy:
  assumes "cycle_inv s" "timeouts s \<noteq> [] \<or> requests s \<noteq> []"
  shows "timeouts (step (Update p now) s) = timeouts s
       \<and> requests (step (Update p now) s) = requests s
       \<and> filter is_SetTimeout (effects (step (Update p now) s))
           = filter is_SetTimeout (effects s)
       \<and> filter is_HttpGet (effects (step (Update p now) s))
           = filter is_HttpGet (effects s)"
proof (cases "lifecycle s = Mounted")
  case True
  have "this_timer (s\<lparr>this_props := p\<rparr>) \<noteq> None"
    using busy_timer [OF assms True] by simp
  from componentDidUpdate_busy [OF this, of "this_props s" now] True
  show ?thesis by simp
next
  case False
  then show ?thesis by simp
qed

lemma updates_while_busy:
  assumes "cycle_inv s" "timeouts s \<noteq> [] \<or> requests s \<noteq> []" "list_all is_Update us"
  shows "timeouts (run us s) = timeouts s
       \<and> requests (run us s) = requests s
       \<and> filter is_SetTimeout (effects (run us s)) = filter is_SetTimeout (effects s)
       \<and> filter is_HttpGet (effects (run us s)) = filter is_HttpGet (effects s)"
  using assms
proof (induction us arbitrary: s)
  case Nil
  then show ?case by simp
next
  case (Cons u us)
  from Cons.prems(3) obtain p now where u: "u = Update p now"
    by (cases u) simp_all
  note one = update_while_busy [OF Cons.prems(1,2), of p now]
  have "cycle_inv (step u s)" by (rule step_inv [OF Cons.prems(1)])
  moreover have "timeouts (step u s) \<noteq> [] \<or> requests (step u s) \<noteq> []"
    using one Cons.prems(2) u by simp
  moreover have "list_all is_Update us" using Cons.prems(3) by simp
  ultimately have "timeouts (run us (step u s)) = timeouts (step u s)
       \<and> requests (run us (step u s)) = requests (step u s)
       \<and> filter is_SetTimeout (effects (run us (step u s)))
           = filter is_SetTimeout (effects (step u s))
       \<and> filter is_HttpGet (effects (run us (step u s)))
           = filter is_HttpGet (effects (step u s))"
    by (rule Cons.IH)
  with one u show ?case by simp
qed

lemma setState_offline_inactive:
  assumes "\<not> shouldCheckForQueries (this_props s) now"
  shows "this_timer (setState_offline b now s) = this_timer s"
    and "timeouts (setState_offline b now s) = timeouts s"
    and "filter is_SetTimeout (effects (setState_offline b now s))
           = filter is_SetTimeout (effects s)"
    and "filter is_HttpGet (effects (setState_offline b now s))
           = filter is_HttpGet (effects s)"
  using assms componentDidUpdate_inactive [of "s\<lparr>this_state_offline := b\<rparr>" now]
  by (simp_all add: setState_offline_def)

lemma setState_offline_mounted:
  "lifecycle s = Mounted \<Longrightarrow> this_state_offline (setState_offline b now s) = b"
  by (simp add: setState_offline_def)

lemma finally_cb_result:
  assumes "cycle_inv s"
  shows "timeouts (finally_cb n s)
           = [\<lparr>handle = next_handle s, arg = n + 1, delay = QUERY_UPDATE_FREQ\<rparr>]"
    and "this_timer (finally_cb n s) = Some (next_handle s)"
    and "requests (finally_cb n s) = requests s"
    and "this_props (finally_cb n s) = this_props s"
    and "lifecycle (finally_cb n s) = lifecycle s"
    and "effects (finally_cb n s)
           = effects s @ [SetTimeout (next_handle s) (n + 1) QUERY_UPDATE_FREQ]"
  using startTimer_free [of "stopTimer s" "n + 1"] cycle_inv_timeouts_stop [OF assms]
  by (simp_all add: finally_cb_def)

lemma find_request_single:
  assumes "cycle_inv s" "find P (requests s) = Some q"
  shows "requests s = [q] \<and> P q \<and> timeouts s = []
         \<and> (lifecycle s = Mounted \<longrightarrow> this_timer s \<noteq> None)"
proof -
  from assms(2) have q: "q \<in> set (requests s)" "P q" by (auto simp: find_Some_iff)
  with assms(1) have "requests s = [q]"
    by (cases "requests s") (auto simp: cycle_inv_def)
  with assms(1) q show ?thesis by (simp add: cycle_inv_def)
qed

lemma finally_step:
  assumes "cycle_inv s" "find (\<lambda>q. rid q = i \<and> responded q) (requests s) = Some q"
  shows "timeouts (step (Finally i) s)
           = [\<lparr>handle = next_handle s, arg = rc q + 1, delay = QUERY_UPDATE_FREQ\<rparr>]"
    and "requests (step (Finally i) s) = []"
    and "this_props (step (Finally i) s) = this_props s"
    and "effects (step (Finally i) s)
           = effects s @ [SetTimeout (next_handle s) (rc q + 1) QUERY_UPDATE_FREQ]"
proof -
  note f = find_request_single [OF assms]
  let ?s = "s\<lparr>requests := filter (\<lambda>q. rid q \<noteq> i) (requests s)\<rparr>"
  have i: "cycle_inv ?s" using assms(1) f by (auto simp: cycle_inv_def)
  have st: "step (Finally i) s = finally_cb (rc q) ?s" using assms(2) by simp
  show "timeouts (step (Finally i) s)
           = [\<lparr>handle = next_handle s, arg = rc q + 1, delay = QUERY_UPDATE_FREQ\<rparr>]"
    using finally_cb_result(1) [OF i, of "rc q"] st by simp
  show "requests (step (Finally i) s) = []"
    using finally_cb_result(3) [OF i, of "rc q"] st f by simp
  show "this_props (step (Finally i) s) = this_props s"
    using finally_cb_result(4) [OF i, of "rc q"] st by simp
  show "effects (step (Finally i) s)
           = effects s @ [SetTimeout (next_handle s) (rc q + 1) QUERY_UPDATE_FREQ]"
    using finally_cb_result(6) [OF i, of "rc q"] st by simp
qed

lemma settle_requests [simp]: "requests (settle r now s) = requests s"
  by (cases r) (simp_all add: then_cb_def catch_cb_def)

lemma respond_step:
  assumes "find (\<lambda>q. rid q = i \<and> \<not> responded q) (requests s) = Some q"
    and "requests s = [q]"
  shows "requests (step (Respond i r now) s) = [q\<lparr>responded := True\<rparr>]"
proof -
  from assms(1) have "rid q = i" by (auto simp: find_Some_iff)
  with assms show ?thesis by simp
qed

lemma fire_inactive:
  assumes "cycle_inv s" "find (\<lambda>t. handle t = h) (timeouts s) = Some t"
    and "\<not> shouldCheckForQueries (this_props s) now"
  shows "this_timer (step (Fire h now) s) = None"
    and "timeouts (step (Fire h now) s) = []"
    and "requests (step (Fire h now) s) = []"
    and "filter is_HttpGet (effects (step (Fire h now) s)) = filter is_HttpGet (effects s)"
    and "filter is_SetTimeout (effects (step (Fire h now) s))
           = filter is_SetTimeout (effects s)"
    and "lifecycle s = Mounted \<Longrightarrow> this_state_offline (step (Fire h now) s) = False"
proof -
  note f = find_handle_single [OF assms(1,2)]
  let ?s = "s\<lparr>timeouts := filter (\<lambda>t. handle t \<noteq> h) (timeouts s)\<rparr>"
  have st: "step (Fire h now) s = setState_offline False now (stopTimer ?s)"
    using assms(2,3) by (simp add: stopwatch_def)
  have n: "\<not> shouldCheckForQueries (this_props (stopTimer ?s)) now"
    using assms(3) by simp
  have t: "timeouts (stopTimer ?s) = []" using f by (simp add: stopTimer_timeouts)
  show "this_timer (step (Fire h now) s) = None"
    using setState_offline_inactive(1) [OF n] st by simp
  show "timeouts (step (Fire h now) s) = []"
    using setState_offline_inactive(2) [OF n] st t by simp
  show "requests (step (Fire h now) s) = []"
    using st f by simp
  show "filter is_HttpGet (effects (step (Fire h now) s)) = filter is_HttpGet (effects s)"
    using setState_offline_inactive(4) [OF n] st by simp
  show "filter is_SetTimeout (effects (step (Fire h now) s))
           = filter is_SetTimeout (effects s)"
    using setState_offline_inactive(3) [OF n] st by simp
  show "this_state_offline (step (Fire h now) s) = False" if "lifecycle s = Mounted"
    using that st setState_offline_mounted [of "stopTimer ?s" False now] by simp
qed

lemma idle_step:
  assumes "idle s" "\<not> evaluates_active e s"
  shows "idle (step e s)"
proof (cases e)
  case (Mount now)
  with assms show ?thesis by (simp add: idle_def componentWillMount_def)
next
  case (Update p now)
  with assms have "\<not> shouldCheckForQueries (this_props (s\<lparr>this_props := p\<rparr>)) now" by simp
  from componentDidUpdate_inactive [OF this, of "this_props s"] assms(1) Update
  show ?thesis by (simp add: idle_def)
next
  case Unmount
  with assms(1) show ?thesis
    by (simp add: idle_def componentWillUnmount_def stopTimer_timeouts)
qed (use assms(1) in \<open>simp_all add: idle_def\<close>)

lemma idle_run: "idle s \<Longrightarrow> never_active es s \<Longrightarrow> idle (run es s)"
  by (induction es arbitrary: s) (simp_all add: idle_step)

lemma dead_step:
  assumes "lifecycle s = Unmounted" "timeouts s = []" "requests s = []"
  shows "step e s = s"
  using assms by (cases e) simp_all

lemma dead_run:
  assumes "lifecycle s = Unmounted" "timeouts s = []" "requests s = []"
  shows "run es s = s"
  using assms by (induction es) (simp_all add: dead_step)

subsection \<open>The offline flag and the store, and the unmounted instance\<close>



lemma setState_offline_unmounted:
  "lifecycle s \<noteq> Mounted \<Longrightarrow> setState_offline b now s = s"
  by (simp add: setState_offline_def)

lemma lifecycle_kept [simp]:
  "lifecycle (stopwatch n now s) = lifecycle s"
  "lifecycle (settle r now s) = lifecycle s"
  "lifecycle (finally_cb n s) = lifecycle s"
  by (simp add: stopwatch_def, cases r, simp_all add: then_cb_def catch_cb_def finally_cb_def)

lemma unmounted_stopwatch:
  "lifecycle s = Unmounted \<Longrightarrow>
     filter is_SetUserOffline (effects (stopwatch n now s)) = filter is_SetUserOffline (effects s)"
  by (simp add: stopwatch_def setState_offline_unmounted)

lemma unmounted_settle:
  "lifecycle s = Unmounted \<Longrightarrow>
     filter is_SetUserOffline (effects (settle r now s)) = filter is_SetUserOffline (effects s)"
  by (cases r) (simp_all add: then_cb_def catch_cb_def setState_offline_unmounted)

lemma finally_cb_offline_actions:
  "filter is_SetUserOffline (effects (finally_cb n s)) = filter is_SetUserOffline (effects s)"
  by (simp add: finally_cb_def startTimer_def Let_def emit_def)

lemma unmounted_step:
  assumes "lifecycle s = Unmounted"
  shows "lifecycle (step e s) = Unmounted"
    and "filter is_SetUserOffline (effects (step e s)) = filter is_SetUserOffline (effects s)"
proof -
  show "lifecycle (step e s) = Unmounted"
    using assms by (cases e) (simp_all split: option.splits)
  show "filter is_SetUserOffline (effects (step e s)) = filter is_SetUserOffline (effects s)"
  proof (cases e)
    case (Fire h now)
    with assms show ?thesis
      by (simp add: unmounted_stopwatch split: option.splits)
  next
    case (Respond i r now)
    with assms show ?thesis
      by (simp add: unmounted_settle split: option.splits)
  next
    case (Finally i)
    with assms show ?thesis
      by (simp add: finally_cb_offline_actions split: option.splits)
  qed (use assms in simp_all)
qed

lemma unmounted_run:
  "lifecycle s = Unmounted \<Longrightarrow>
     filter is_SetUserOffline (effects (run es s)) = filter is_SetUserOffline (effects s)"
  by (induction es arbitrary: s) (simp_all add: unmounted_step)


section \<open>Claims about the delay and the retry count\<close>

text \<open>
  C1. The delay of the next poll should be \<open>min(500 + 50 * N, 5000)\<close> for retry count
  \<open>N\<close>, that is 500, 550, 600 ms over three timeouts in a row. \<open>startTimer\<close> computes
  this value (550 for \<open>N = 1\<close>) but schedules the callback with \<open>QUERY_UPDATE_FREQ\<close>:
  the callback for retry count 1 is scheduled after 500 ms, and over three timeouts in a
  row every delay passed to \<open>setTimeout\<close> is 500.
\<close>

theorem scheduled_delay_ignores_retry_count:
  "timeouts (startTimer 1 (constructor props_A)) = [\<lparr>handle = 1, arg = 1, delay = 500\<rparr>]
   \<and> computed_delay 1 = 550
   \<and> scheduled_delays (effects
         (run [Mount 0, Fire 1 500, Respond 1 TimedOut 10500, Finally 1,
               Fire 2 11000, Respond 2 TimedOut 21000, Finally 2,
               Fire 3 21500, Respond 3 TimedOut 31500, Finally 3]
            (constructor props_A))) = [500, 500, 500, 500]
   \<and> map computed_delay [0, 1, 2] = [500, 550, 600]"
  by (simp add: model_defs Let_def)

text \<open>
  C2, as stated, fails: a poll that is resolved (here with the empty payload) passes
  retry count 1, not 0, to the next \<open>startTimer\<close>.
\<close>

theorem success_does_not_reset_retry_count:
  "map arg (timeouts
     (run [Mount 0, Fire 1 500, Respond 1 (Resolved []) 600, Finally 1]
        (constructor props_A))) = [1]"
  by (simp add: model_defs Let_def)

text \<open>
  C2, amended. For every poll cycle, however its request ends (resolved, rejected or
  timed out), the \<open>finally\<close> callback passes the retry count of the cycle plus 1 to the
  next \<open>startTimer\<close>, and that is the count bound to the one callback then pending.
\<close>

theorem retry_count_incremented_on_every_settlement:
  assumes "find (\<lambda>q. rid q = i \<and> \<not> responded q) (requests (run es (constructor p))) = Some q"
  shows "map arg (timeouts (step (Finally i) (step (Respond i r now) (run es (constructor p)))))
           = [rc q + 1]"
proof -
  let ?s = "run es (constructor p)"
  let ?s1 = "step (Respond i r now) ?s"
  have i: "cycle_inv ?s" by (rule reachable_inv)
  have i1: "cycle_inv ?s1" by (rule step_inv [OF i])
  note f = find_request_single [OF i assms]
  have "requests ?s1 = [q\<lparr>responded := True\<rparr>]"
    using respond_step [OF assms] f by simp
  moreover have "rid q = i" using f by simp
  ultimately have "find (\<lambda>q. rid q = i \<and> responded q) (requests ?s1)
                     = Some (q\<lparr>responded := True\<rparr>)" by simp
  from finally_step(1) [OF i1 this] show ?thesis by simp
qed

theorem retry_count_incremented_on_every_settlement_witness:
  "find (\<lambda>q. rid q = 2 \<and> \<not> responded q)
     (requests (run [Mount 0, Fire 1 500, Respond 1 TimedOut 10500, Finally 1, Fire 2 11000]
                  (constructor props_A)))
     = Some \<lparr>rid = 2, rc = 1, responded = False\<rparr>
   \<and> map arg (timeouts (step (Finally 2) (step (Respond 2 (Resolved []) 11100)
        (run [Mount 0, Fire 1 500, Respond 1 TimedOut 10500, Finally 1, Fire 2 11000]
           (constructor props_A))))) = [2]"
  using retry_count_incremented_on_every_settlement
    [of 2 "[Mount 0, Fire 1 500, Respond 1 TimedOut 10500, Finally 1, Fire 2 11000]"
        props_A "\<lparr>rid = 2, rc = 1, responded = False\<rparr>" "Resolved []" 11100]
  by (simp add: model_defs Let_def)

section \<open>Claims about the single cycle in flight\<close>

text \<open>
  C4. In every state reached from a constructed instance there is at most one pending
  scheduled callback and at most one outstanding HTTP request, and never both; and while
  a cycle is outstanding (a callback pending or a request not finished), props updates in
  any number create no timer and issue no HTTP call, and leave the cycle as it is.
\<close>

theorem single_flight:
  "length (timeouts (run es (constructor p))) \<le> 1
   \<and> length (requests (run es (constructor p))) \<le> 1
   \<and> length (timeouts (run es (constructor p)))
       + length (requests (run es (constructor p))) \<le> 1
   \<and> ((timeouts (run es (constructor p)) \<noteq> [] \<or> requests (run es (constructor p)) \<noteq> [])
        \<and> list_all is_Update us \<longrightarrow>
        timeouts (run us (run es (constructor p))) = timeouts (run es (constructor p))
        \<and> requests (run us (run es (constructor p))) = requests (run es (constructor p))
        \<and> filter is_SetTimeout (effects (run us (run es (constructor p))))
            = filter is_SetTimeout (effects (run es (constructor p)))
        \<and> filter is_HttpGet (effects (run us (run es (constructor p))))
            = filter is_HttpGet (effects (run es (constructor p))))"
proof -
  let ?s = "run es (constructor p)"
  have i: "cycle_inv ?s" by (rule reachable_inv)
  then have "length (timeouts ?s) \<le> 1" "length (requests ?s) \<le> 1"
    by (simp_all add: cycle_inv_def)
  moreover have "length (timeouts ?s) + length (requests ?s) \<le> 1"
  proof (cases "requests ?s = []")
    case True
    with i show ?thesis by (simp add: cycle_inv_def)
  next
    case False
    with i have "timeouts ?s = []" "length (requests ?s) \<le> 1"
      by (simp_all add: cycle_inv_def)
    then show ?thesis by simp
  qed
  ultimately show ?thesis
    using updates_while_busy [OF i, of us] by blast
qed

text \<open>
  C4 at a concrete run: with the request of the first cycle in flight, two props updates
  (the second one adding a running query) leave the one request and the trace of timers
  and HTTP calls as they were.
\<close>

theorem single_flight_witness:
  "requests (run [Mount 0, Fire 1 500] (constructor props_A)) \<noteq> []
   \<and> list_all is_Update
        [Update (props_A\<lparr>queriesLastUpdate := 20500\<rparr>) 600,
         Update (props_A\<lparr>queries := [(''q1'', q_running), (''q2'', q_running)]\<rparr>) 700]
   \<and> length (requests (run [Mount 0, Fire 1 500] (constructor props_A))) = 1
   \<and> timeouts (run [Mount 0, Fire 1 500] (constructor props_A)) = []
   \<and> filter is_HttpGet (effects
        (run [Update (props_A\<lparr>queriesLastUpdate := 20500\<rparr>) 600,
              Update (props_A\<lparr>queries := [(''q1'', q_running), (''q2'', q_running)]\<rparr>) 700]
           (run [Mount 0, Fire 1 500] (constructor props_A))))
       = [HttpGet 15000 10000]
   \<and> filter is_SetTimeout (effects
        (run [Update (props_A\<lparr>queriesLastUpdate := 20500\<rparr>) 600,
              Update (props_A\<lparr>queries := [(''q1'', q_running), (''q2'', q_running)]\<rparr>) 700]
           (run [Mount 0, Fire 1 500] (constructor props_A))))
       = [SetTimeout 1 0 500]"
  using single_flight
    [of "[Mount 0, Fire 1 500]" props_A
        "[Update (props_A\<lparr>queriesLastUpdate := 20500\<rparr>) 600,
          Update (props_A\<lparr>queries := [(''q1'', q_running), (''q2'', q_running)]\<rparr>) 700]"]
  by (simp add: model_defs Let_def)

text \<open>
  C8. In a run from a constructed instance in which \<open>shouldCheckForQueries\<close> is false at
  every mount and props update, no HTTP call is issued and no timer is created; nothing
  is ever pending.
\<close>

theorem idle_when_inactive:
  assumes "never_active es (constructor p)"
  shows "filter is_HttpGet (effects (run es (constructor p))) = []
       \<and> filter is_SetTimeout (effects (run es (constructor p))) = []
       \<and> timeouts (run es (constructor p)) = []
       \<and> requests (run es (constructor p)) = []"
proof -
  have "idle (constructor p)" by (simp add: idle_def constructor_def)
  then have "idle (run es (constructor p))" using assms by (rule idle_run)
  then show ?thesis by (simp add: idle_def)
qed

theorem idle_when_inactive_witness:
  "never_active
     [Mount 0, Update (props_D\<lparr>queriesLastUpdate := 30000\<rparr>) 100, Fire 1 500, Unmount]
     (constructor props_D)
   \<and> effects
       (run [Mount 0, Update (props_D\<lparr>queriesLastUpdate := 30000\<rparr>) 100, Fire 1 500, Unmount]
          (constructor props_D)) = []"
  using idle_when_inactive
    [of "[Mount 0, Update (props_D\<lparr>queriesLastUpdate := 30000\<rparr>) 100, Fire 1 500, Unmount]"
        props_D]
  by (simp add: model_defs Let_def)

section \<open>Claims about unmounting, rescheduling and the offline flag\<close>

text \<open>
  C3, as stated, fails: the instance is unmounted while its request is in flight; when
  the request is then resolved with a payload, \<open>refreshQueries\<close> is still dispatched.
\<close>

theorem store_write_after_unmount:
  "lifecycle (run [Mount 0, Fire 1 500, Unmount] (constructor props_A)) = Unmounted
   \<and> effects (run [Mount 0, Fire 1 500, Unmount] (constructor props_A))
       = [SetTimeout 1 0 500, HttpGet 15000 10000]
   \<and> effects (run [Mount 0, Fire 1 500, Unmount,
                    Respond 1 (Resolved [(''q1'', q_success)]) 600]
                 (constructor props_A))
       = [SetTimeout 1 0 500, HttpGet 15000 10000, RefreshQueries [(''q1'', q_success)]]"
  by (simp add: model_defs Let_def)

text \<open>
  C3, amended. After \<open>componentWillUnmount\<close> has returned on a mounted instance,
  \<open>setUserOffline\<close> is never dispatched again, whatever events follow, also when a request
  that was in flight is resolved or rejected later. And when at unmount no request of the
  instance is unfinished (none awaits its response and none awaits its \<open>finally\<close>
  callback), nothing happens afterwards at all: no store action, HTTP call or timer is
  added to the trace, and no callback or request is pending.
\<close>

theorem teardown_on_unmount:
  assumes "lifecycle (run es (constructor p)) = Mounted"
  shows "filter is_SetUserOffline (effects (run es' (step Unmount (run es (constructor p)))))
           = filter is_SetUserOffline (effects (run es (constructor p)))
       \<and> (requests (run es (constructor p)) = [] \<longrightarrow>
            effects (run es' (step Unmount (run es (constructor p))))
              = effects (run es (constructor p))
            \<and> timeouts (run es' (step Unmount (run es (constructor p)))) = []
            \<and> requests (run es' (step Unmount (run es (constructor p)))) = [])"
proof -
  let ?s = "run es (constructor p)"
  let ?u = "step Unmount ?s"
  have i: "cycle_inv ?s" by (rule reachable_inv)
  have u: "lifecycle ?u = Unmounted" "effects ?u = effects ?s" "requests ?u = requests ?s"
          "timeouts ?u = []"
    using assms cycle_inv_timeouts_stop [OF i] by (simp_all add: componentWillUnmount_def)
  have a: "filter is_SetUserOffline (effects (run es' ?u))
             = filter is_SetUserOffline (effects ?s)"
    using unmounted_run [OF u(1), of es'] u(2) by simp
  have b: "effects (run es' ?u) = effects ?s \<and> timeouts (run es' ?u) = []
             \<and> requests (run es' ?u) = []" if "requests ?s = []"
    using dead_run [OF u(1) u(4), of es'] u that by simp
  from a b show ?thesis by blast
qed

theorem teardown_on_unmount_witness:
  "lifecycle (run [Mount 0] (constructor props_A)) = Mounted
   \<and> requests (run [Mount 0] (constructor props_A)) = []
   \<and> timeouts (run [Mount 0] (constructor props_A)) = [\<lparr>handle = 1, arg = 0, delay = 500\<rparr>]
   \<and> effects (run [Fire 1 500, Update props_A 600, Respond 1 (Resolved []) 700, Finally 1]
               (step Unmount (run [Mount 0] (constructor props_A))))
       = [SetTimeout 1 0 500]
   \<and> lifecycle (run [Mount 0, Fire 1 500] (constructor props_A)) = Mounted
   \<and> requests (run [Mount 0, Fire 1 500] (constructor props_A))
       = [\<lparr>rid = 1, rc = 0, responded = False\<rparr>]
   \<and> filter is_SetUserOffline (effects
        (run [Respond 1 Rejected 600, Finally 1, Fire 2 1100, Respond 2 TimedOut 11100]
           (step Unmount (run [Mount 0, Fire 1 500] (constructor props_A))))) = []"
  using teardown_on_unmount
    [of "[Mount 0]" props_A
        "[Fire 1 500, Update props_A 600, Respond 1 (Resolved []) 700, Finally 1]"]
    teardown_on_unmount
    [of "[Mount 0, Fire 1 500]" props_A
        "[Respond 1 Rejected 600, Finally 1, Fire 2 1100, Respond 2 TimedOut 11100]"]
  by (simp add: model_defs Let_def)

text \<open>
  The second part needs its hypothesis as it stands. A request that has got its response
  but not yet run its \<open>finally\<close> callback is unfinished: when the instance is unmounted at
  that moment (here by the store's reaction to \<open>refreshQueries\<close>), the \<open>finally\<close> callback
  starts a timer on the unmounted instance, and the polling goes on.
\<close>

lemma unmount_before_finally_restarts_polling:
  "find (\<lambda>q. \<not> responded q)
     (requests (run [Mount 0, Fire 1 500, Respond 1 (Resolved [(''q1'', q_running)]) 600]
                  (constructor props_A))) = None
   \<and> effects (run [Mount 0, Fire 1 500, Respond 1 (Resolved [(''q1'', q_running)]) 600, Unmount]
                 (constructor props_A))
       = [SetTimeout 1 0 500, HttpGet 15000 10000, RefreshQueries [(''q1'', q_running)]]
   \<and> effects (run [Mount 0, Fire 1 500, Respond 1 (Resolved [(''q1'', q_running)]) 600, Unmount,
                    Finally 1, Fire 2 1100, Respond 2 (Resolved [(''q1'', q_success)]) 1200]
                 (constructor props_A))
       = [SetTimeout 1 0 500, HttpGet 15000 10000, RefreshQueries [(''q1'', q_running)],
          SetTimeout 2 1 500, HttpGet 15000 10000, RefreshQueries [(''q1'', q_success)]]"
  by (simp add: model_defs Let_def)

text \<open>
  C7, as stated, fails: the request is resolved with \<open>q1\<close> finished and the props show no
  active query any more, yet the \<open>finally\<close> callback schedules a new callback.
\<close>

theorem rescheduled_although_inactive:
  "\<not> shouldCheckForQueries
       (this_props (run [Mount 0, Fire 1 500, Respond 1 (Resolved [(''q1'', q_success)]) 600,
                         Update props_D 600] (constructor props_A))) 600
   \<and> timeouts (run [Mount 0, Fire 1 500, Respond 1 (Resolved [(''q1'', q_success)]) 600,
                     Update props_D 600, Finally 1] (constructor props_A))
       = [\<lparr>handle = 2, arg = 1, delay = 500\<rparr>]"
  by (simp add: model_defs Let_def)

text \<open>
  C7, amended. After any poll cycle settles, the \<open>finally\<close> callback schedules exactly one
  new callback whether or not the predicate holds; the predicate is checked when that
  callback fires, and if it is false then, the poller goes idle: no pending timer,
  \<open>this.timer\<close> null, no request issued.
\<close>

theorem reschedule_unconditional_idle_on_fire:
  assumes "find (\<lambda>q. rid q = i \<and> responded q) (requests (run es (constructor p))) = Some q"
  shows "timeouts (step (Finally i) (run es (constructor p)))
           = [\<lparr>handle = next_handle (run es (constructor p)), arg = rc q + 1,
               delay = QUERY_UPDATE_FREQ\<rparr>]
       \<and> (\<not> shouldCheckForQueries (this_props (run es (constructor p))) now \<longrightarrow>
            timeouts (step (Fire (next_handle (run es (constructor p))) now)
                        (step (Finally i) (run es (constructor p)))) = []
          \<and> this_timer (step (Fire (next_handle (run es (constructor p))) now)
                        (step (Finally i) (run es (constructor p)))) = None
          \<and> requests (step (Fire (next_handle (run es (constructor p))) now)
                        (step (Finally i) (run es (constructor p)))) = []
          \<and> filter is_HttpGet (effects
                (step (Fire (next_handle (run es (constructor p))) now)
                        (step (Finally i) (run es (constructor p)))))
              = filter is_HttpGet (effects (run es (constructor p))))"
proof -
  let ?s = "run es (constructor p)"
  let ?s1 = "step (Finally i) ?s"
  let ?h = "next_handle ?s"
  have i: "cycle_inv ?s" by (rule reachable_inv)
  have i1: "cycle_inv ?s1" by (rule step_inv [OF i])
  note fs = finally_step [OF i assms]
  have fnd: "find (\<lambda>t. handle t = ?h) (timeouts ?s1)
               = Some \<lparr>handle = ?h, arg = rc q + 1, delay = QUERY_UPDATE_FREQ\<rparr>"
    using fs(1) by simp
  have he: "filter is_HttpGet (effects ?s1) = filter is_HttpGet (effects ?s)"
    using fs(4) by simp
  show ?thesis
  proof (intro conjI impI)
    show "timeouts ?s1 = [\<lparr>handle = ?h, arg = rc q + 1, delay = QUERY_UPDATE_FREQ\<rparr>]"
      by (rule fs(1))
  next
    assume "\<not> shouldCheckForQueries (this_props ?s) now"
    then have n: "\<not> shouldCheckForQueries (this_props ?s1) now" using fs(3) by simp
    note fi = fire_inactive [OF i1 fnd n]
    show "timeouts (step (Fire ?h now) ?s1) = []" by (rule fi(2))
    show "this_timer (step (Fire ?h now) ?s1) = None" by (rule fi(1))
    show "requests (step (Fire ?h now) ?s1) = []" by (rule fi(3))
    show "filter is_HttpGet (effects (step (Fire ?h now) ?s1))
            = filter is_HttpGet (effects ?s)"
      using fi(4) he by simp
  qed
qed

theorem reschedule_unconditional_idle_on_fire_witness:
  "find (\<lambda>q. rid q = 1 \<and> responded q)
     (requests (run [Mount 0, Fire 1 500, Respond 1 (Resolved [(''q1'', q_success)]) 600,
                     Update props_D 600] (constructor props_A)))
     = Some \<lparr>rid = 1, rc = 0, responded = True\<rparr>
   \<and> \<not> shouldCheckForQueries
       (this_props (run [Mount 0, Fire 1 500, Respond 1 (Resolved [(''q1'', q_success)]) 600,
                         Update props_D 600] (constructor props_A))) 1100
   \<and> timeouts (step (Finally 1)
        (run [Mount 0, Fire 1 500, Respond 1 (Resolved [(''q1'', q_success)]) 600,
              Update props_D 600] (constructor props_A)))
       = [\<lparr>handle = 2, arg = 1, delay = 500\<rparr>]
   \<and> timeouts (step (Fire 2 1100) (step (Finally 1)
        (run [Mount 0, Fire 1 500, Respond 1 (Resolved [(''q1'', q_success)]) 600,
              Update props_D 600] (constructor props_A)))) = []
   \<and> filter is_HttpGet (effects (step (Fire 2 1100) (step (Finally 1)
        (run [Mount 0, Fire 1 500, Respond 1 (Resolved [(''q1'', q_success)]) 600,
              Update props_D 600] (constructor props_A)))))
       = [HttpGet 15000 10000]"
  using reschedule_unconditional_idle_on_fire
    [of 1 "[Mount 0, Fire 1 500, Respond 1 (Resolved [(''q1'', q_success)]) 600,
            Update props_D 600]" props_A "\<lparr>rid = 1, rc = 0, responded = True\<rparr>" 1100]
  by (simp add: model_defs Let_def)

text \<open>
  C9, as stated, fails: after a rejected request the component's offline value is true
  and \<open>setUserOffline(true)\<close> has been dispatched once; the next update step, in which the
  store delivers \<open>offline = true\<close>, leaves the component's value unchanged and dispatches
  \<open>setUserOffline(true)\<close> a second time.
\<close>

theorem setUserOffline_dispatched_twice:
  "this_state_offline
     (run [Mount 0, Fire 1 500, Respond 1 Rejected 600, Finally 1] (constructor props_A))
     = True
   \<and> filter is_SetUserOffline (effects
        (run [Mount 0, Fire 1 500, Respond 1 Rejected 600, Finally 1] (constructor props_A)))
       = [SetUserOffline True]
   \<and> this_state_offline
        (run [Mount 0, Fire 1 500, Respond 1 Rejected 600, Finally 1,
              Update (props_A\<lparr>offline := True\<rparr>) 700] (constructor props_A))
       = True
   \<and> filter is_SetUserOffline (effects
        (run [Mount 0, Fire 1 500, Respond 1 Rejected 600, Finally 1,
              Update (props_A\<lparr>offline := True\<rparr>) 700] (constructor props_A)))
       = [SetUserOffline True, SetUserOffline True]"
  by (simp add: model_defs Let_def)

text \<open>
  C9, amended. An update step dispatches \<open>setUserOffline\<close> exactly when the offline value
  of the previous props differs from the component's own offline state, once and with
  the component's state as payload; when the two agree it dispatches nothing.
\<close>

theorem setUserOffline_guard:
  "filter is_SetUserOffline (effects (componentDidUpdate prevProps now s))
     = filter is_SetUserOffline (effects s)
       @ (if offline prevProps \<noteq> this_state_offline s
          then [SetUserOffline (this_state_offline s)] else [])
   \<and> (lifecycle s = Mounted \<longrightarrow>
        filter is_SetUserOffline (effects (step (Update p now) s))
          = filter is_SetUserOffline (effects s)
            @ (if offline (this_props s) \<noteq> this_state_offline s
               then [SetUserOffline (this_state_offline s)] else []))"
proof -
  have "filter is_SetUserOffline (effects (componentDidUpdate pp now s'))
          = filter is_SetUserOffline (effects s')
            @ (if offline pp \<noteq> this_state_offline s'
               then [SetUserOffline (this_state_offline s')] else [])" for pp s'
    by (simp add: componentDidUpdate_def Let_def startTimer_def emit_def)
  from this [of prevProps s] this [of "this_props s" "s\<lparr>this_props := p\<rparr>"]
  show ?thesis by simp
qed

theorem setUserOffline_guard_witness:
  "lifecycle (run [Mount 0, Fire 1 500, Respond 1 Rejected 600, Finally 1,
                   Update (props_A\<lparr>offline := True\<rparr>) 700] (constructor props_A)) = Mounted
   \<and> offline (this_props
        (run [Mount 0, Fire 1 500, Respond 1 Rejected 600, Finally 1,
              Update (props_A\<lparr>offline := True\<rparr>) 700] (constructor props_A)))
       = this_state_offline
           (run [Mount 0, Fire 1 500, Respond 1 Rejected 600, Finally 1,
                 Update (props_A\<lparr>offline := True\<rparr>) 700] (constructor props_A))
   \<and> filter is_SetUserOffline (effects (step (Update (props_A\<lparr>offline := True\<rparr>) 800)
        (run [Mount 0, Fire 1 500, Respond 1 Rejected 600, Finally 1,
              Update (props_A\<lparr>offline := True\<rparr>) 700] (constructor props_A))))
       = [SetUserOffline True, SetUserOffline True]"
  using setUserOffline_guard
    [of props_A 800
        "run [Mount 0, Fire 1 500, Respond 1 Rejected 600, Finally 1,
              Update (props_A\<lparr>offline := True\<rparr>) 700] (constructor props_A)"
        "props_A\<lparr>offline := True\<rparr>"]
  by (simp add: model_defs Let_def)




end
